theory Spec2Isabelle
  imports Complex_Main
begin

section \<open>Python values\<close>

text \<open>
  A Python \<^verbatim>\<open>str\<close> is a sequence of Unicode code points and \<^verbatim>\<open>len\<close> counts code
  points, so a string is a list of code points here. \<open>lit\<close> embeds the ASCII literals
  of the source.
\<close>

type_synonym pystr = "nat list"
type_synonym pybytes = "nat list"

definition lit :: "string \<Rightarrow> pystr" where
  "lit s = map (of_char :: char \<Rightarrow> nat) s"

text \<open>
  Exceptions (subclasses of \<^verbatim>\<open>Exception\<close>) carry what \<^verbatim>\<open>str(e)\<close> prints. The source
  distinguishes \<^verbatim>\<open>json.JSONDecodeError\<close> from every other exception.
\<close>

datatype exn = JSONDecodeError pystr | Error pystr

fun exn_str :: "exn \<Rightarrow> pystr" where
  "exn_str (JSONDecodeError m) = m"
| "exn_str (Error m) = m"

text \<open>
  What a request handler ends with when it does not return: an \<^verbatim>\<open>HTTPException\<close>
  (status code, detail) or an exception nobody caught.
\<close>

datatype http_error = HTTPException nat pystr | Unhandled exn

text \<open>
  Values \<^verbatim>\<open>json.loads\<close> returns and dict literals of the source. An object is its
  key/value pairs in insertion order, keys distinct.
\<close>

datatype json =
    JNull
  | JBool bool
  | JNumber real
  | JString pystr
  | JArray "json list"
  | JObject "(pystr \<times> json) list"

text \<open>\<^verbatim>\<open>d[key]\<close> for a string key: KeyError on a dict without it, TypeError elsewhere.\<close>

fun py_getitem :: "json \<Rightarrow> pystr \<Rightarrow> exn + json" where
  "py_getitem (JObject kvs) k =
     (case map_of kvs k of Some v \<Rightarrow> Inr v | None \<Rightarrow> Inl (Error (lit ''KeyError'')))"
| "py_getitem _ k = Inl (Error (lit ''TypeError''))"

text \<open>Truthiness of an \<^verbatim>\<open>Optional[str]\<close>: None and the empty string are falsy.\<close>

fun truthy :: "pystr option \<Rightarrow> bool" where
  "truthy None = False"
| "truthy (Some s) = (s \<noteq> [])"

text \<open>
  Unicode whitespace, as \<^verbatim>\<open>str.strip()\<close>, \<^verbatim>\<open>str.isspace()\<close> and the pattern \<^verbatim>\<open>\s\<close> of
  \<^verbatim>\<open>re\<close> on a str see it.
\<close>

definition isspace :: "nat \<Rightarrow> bool" where
  "isspace c =
     ((9 \<le> c \<and> c \<le> 13) \<or> (28 \<le> c \<and> c \<le> 32) \<or> c = 133 \<or> c = 160 \<or> c = 5760
      \<or> (8192 \<le> c \<and> c \<le> 8202) \<or> c = 8232 \<or> c = 8233 \<or> c = 8239 \<or> c = 8287
      \<or> c = 12288)"

definition py_strip :: "pystr \<Rightarrow> pystr" where
  "py_strip s = rev (dropWhile isspace (rev (dropWhile isspace s)))"

text \<open>\<^verbatim>\<open>re.sub(r'\s+', ' ', content)\<close>: every maximal run of whitespace becomes one space.\<close>

function re_sub_whitespace :: "pystr \<Rightarrow> pystr" where
  "re_sub_whitespace [] = []"
| "re_sub_whitespace (c # cs) =
     (if isspace c then 32 # re_sub_whitespace (dropWhile isspace cs)
      else c # re_sub_whitespace cs)"
  by pat_completeness auto
termination
  by (relation "measure length") (auto simp: length_dropWhile_le le_imp_less_Suc)

text \<open>
  \<^verbatim>\<open>s.lower()\<close> on the ASCII letters (no other code point lowers to one of the
  characters of \<^verbatim>\<open>.pdf\<close>), and \<^verbatim>\<open>s.endswith(suffix)\<close>.
\<close>

definition py_lower :: "pystr \<Rightarrow> pystr" where
  "py_lower s = map (\<lambda>c. if 65 \<le> c \<and> c \<le> 90 then c + 32 else c) s"

definition endswith :: "pystr \<Rightarrow> pystr \<Rightarrow> bool" where
  "endswith s suffix =
     (length suffix \<le> length s \<and> drop (length s - length suffix) s = suffix)"

text \<open>
  \<^verbatim>\<open>re.search(r'\{[\s\S]*\}', s)\<close>, the group it matched: the search starts at the
  leftmost \<^verbatim>\<open>{\<close> and the greedy \<^verbatim>\<open>[\s\S]*\<close> runs to the last \<^verbatim>\<open>}\<close> of the
  string; no match when there is no \<^verbatim>\<open>{\<close> or no \<^verbatim>\<open>}\<close> after the first one.
  Code point 123 is \<^verbatim>\<open>{\<close>, 125 is \<^verbatim>\<open>}\<close>.
\<close>

definition re_search_braces :: "pystr \<Rightarrow> pystr option" where
  "re_search_braces s =
     (let from_open = dropWhile (\<lambda>c. c \<noteq> 123) s;
          to_close = rev (dropWhile (\<lambda>c. c \<noteq> 125) (rev from_open))
      in if to_close = [] then None else Some to_close)"

section \<open>The outside world\<close>

text \<open>
  The persisted record (\<^verbatim>\<open>models.ResumeOptimization\<close>), the fields the handlers set.
\<close>

record document =
  user_email :: pystr
  job_url :: pystr
  job_posting_content :: pystr
  job_posting_raw :: pystr
  original_resume :: pystr
  optimized_resume :: pystr
  suggestions :: "pystr list"
  match_score :: real
  created_at :: nat

text \<open>
  \<^verbatim>\<open>ResumeResponse\<close>: id, optimized_resume, suggestions, match_score, created_at,
  job_posting_content, in this order.
\<close>

datatype response = ResumeResponse pystr pystr "pystr list" real nat pystr

text \<open>
  The two prompts are fixed templates around the text they embed; a prompt is its template
  and the embedded text.
\<close>

datatype prompt = CleansePrompt pystr | OptimizePrompt pystr pystr

text \<open>Calls that leave the process, in the order they are made.\<close>

datatype event =
    StaticFetch pystr
  | RenderedFetch pystr
  | InvokeModel prompt
  | FindOne pybytes
  | DeleteOne pybytes
  | InsertOne document

text \<open>
  The collaborators are parameters. An answer of the network, the browser, the language
  model or the store may depend on everything that happened before, so those take the
  events so far; a second call may answer differently from the first.
  \<^item> \<open>http_get_text\<close>: lines 186--200 of \<^verbatim>\<open>scrape_job_posting\<close>, the GET, the status
    check, the parse and the join of the stripped lines: the text, or the exception;
  \<^item> \<open>playwright_text\<close>: the body of \<^verbatim>\<open>scrape_with_playwright\<close>;
  \<^item> \<open>boto3_client\<close>: \<^verbatim>\<open>boto3.client(...)\<close>;
  \<^item> \<open>invoke_model\<close>: the request, \<^verbatim>\<open>bedrock.invoke_model\<close> and the reading of
    \<^verbatim>\<open>response_body['content'][0]['text']\<close>: the text, or the exception;
  \<^item> \<open>json_loads\<close>: \<^verbatim>\<open>json.loads\<close> on a str;
  \<^item> \<open>pdf_page_texts\<close>: \<^verbatim>\<open>PyPDF2.PdfReader\<close> and \<^verbatim>\<open>extract_text\<close> of every page;
  \<^item> \<open>decode_utf8\<close>: \<^verbatim>\<open>bytes.decode('utf-8')\<close>;
  \<^item> \<open>find_one\<close>, \<open>delete_one\<close> (its \<^verbatim>\<open>deleted_count\<close>), \<open>insert_one\<close> (its
    \<^verbatim>\<open>inserted_id\<close> as a str): the collection;
  \<^item> \<open>model_validate\<close>: pydantic's validation of optimized_resume, suggestions and
    match_score; \<open>utcnow\<close>: the clock.
\<close>

record env =
  http_get_text :: "event list \<Rightarrow> pystr \<Rightarrow> exn + pystr"
  playwright_text :: "event list \<Rightarrow> pystr \<Rightarrow> exn + pystr"
  boto3_client :: "event list \<Rightarrow> exn + unit"
  invoke_model :: "event list \<Rightarrow> prompt \<Rightarrow> exn + pystr"
  json_loads :: "pystr \<Rightarrow> exn + json"
  pdf_page_texts :: "pybytes \<Rightarrow> exn + pystr list"
  decode_utf8 :: "pybytes \<Rightarrow> exn + pystr"
  find_one :: "event list \<Rightarrow> pybytes \<Rightarrow> exn + document option"
  delete_one :: "event list \<Rightarrow> pybytes \<Rightarrow> exn + nat"
  insert_one :: "event list \<Rightarrow> document \<Rightarrow> exn + pystr"
  model_validate :: "json \<Rightarrow> json \<Rightarrow> json \<Rightarrow> exn + (pystr \<times> pystr list \<times> real)"
  utcnow :: "event list \<Rightarrow> nat"

fun is_rendered_fetch :: "event \<Rightarrow> bool" where
  "is_rendered_fetch (RenderedFetch u) = True"
| "is_rendered_fetch _ = False"

definition rendered_fetches :: "event list \<Rightarrow> nat" where
  "rendered_fetches tr = length (filter is_rendered_fetch tr)"

section \<open>Content extraction\<close>

definition scrape_with_playwright ::
  "env \<Rightarrow> event list \<Rightarrow> pystr \<Rightarrow> (exn + pystr) \<times> event list" where
  "scrape_with_playwright env tr url = (playwright_text env tr url, tr @ [RenderedFetch url])"

text \<open>
  \<^verbatim>\<open>cleanse_job_posting_with_llm\<close>: both \<^verbatim>\<open>try\<close> blocks catch \<^verbatim>\<open>Exception\<close> and return
  \<^verbatim>\<open>raw_text[:5000]\<close>; the prompt embeds \<^verbatim>\<open>raw_text[:8000]\<close>.
\<close>

definition cleanse_job_posting_with_llm ::
  "env \<Rightarrow> event list \<Rightarrow> pystr \<Rightarrow> (exn + pystr) \<times> event list" where
  "cleanse_job_posting_with_llm env tr raw_text =
     (case boto3_client env tr of
        Inl e \<Rightarrow> (Inr (take 5000 raw_text), tr)
      | Inr bedrock \<Rightarrow>
          (let prompt = CleansePrompt (take 8000 raw_text) in
           case invoke_model env tr prompt of
             Inl e \<Rightarrow> (Inr (take 5000 raw_text), tr @ [InvokeModel prompt])
           | Inr cleaned_text \<Rightarrow> (Inr cleaned_text, tr @ [InvokeModel prompt])))"

definition extract_error_msg :: pystr where
  "extract_error_msg =
     lit ''Unable to extract job posting content. The page might be protected or require manual access.''"

definition scrape_error_msg :: "exn \<Rightarrow> pystr" where
  "scrape_error_msg e = lit ''Unable to scrape job posting. Error: '' @ exn_str e"

text \<open>The \<^verbatim>\<open>try\<close> block of \<^verbatim>\<open>scrape_job_posting\<close> (lines 185--220).\<close>

definition scrape_try ::
  "env \<Rightarrow> event list \<Rightarrow> pystr \<Rightarrow> (exn + pystr \<times> pystr) \<times> event list" where
  "scrape_try env tr url =
     (case http_get_text env tr url of
        Inl e \<Rightarrow> (Inl e, tr @ [StaticFetch url])
      | Inr text \<Rightarrow>
          (let tr1 = tr @ [StaticFetch url] in
           if length text > 500 then
             (case cleanse_job_posting_with_llm env tr1 text of
                (Inl e, tr2) \<Rightarrow> (Inl e, tr2)
              | (Inr cleansed_text, tr2) \<Rightarrow> (Inr (cleansed_text, text), tr2))
           else
             (case scrape_with_playwright env tr1 url of
                (Inl e, tr2) \<Rightarrow> (Inl e, tr2)
              | (Inr text2, tr2) \<Rightarrow>
                  if length text2 > 100 then
                    (case cleanse_job_posting_with_llm env tr2 text2 of
                       (Inl e, tr3) \<Rightarrow> (Inl e, tr3)
                     | (Inr cleansed_text, tr3) \<Rightarrow> (Inr (cleansed_text, text2), tr3))
                  else (Inr (extract_error_msg, extract_error_msg), tr2))))"

text \<open>
  The handler \<^verbatim>\<open>except Exception as e\<close> (lines 222--235): the inner \<^verbatim>\<open>try\<close> returns
  when the rendered text is longer than 100 characters, and falls through to the error
  string when it is not or when anything in it raised.
\<close>

definition scrape_except ::
  "env \<Rightarrow> event list \<Rightarrow> pystr \<Rightarrow> exn \<Rightarrow> (exn + pystr \<times> pystr) \<times> event list" where
  "scrape_except env tr url e =
     (case scrape_with_playwright env tr url of
        (Inl e2, tr1) \<Rightarrow> (Inr (scrape_error_msg e, scrape_error_msg e), tr1)
      | (Inr text, tr1) \<Rightarrow>
          if length text > 100 then
            (case cleanse_job_posting_with_llm env tr1 text of
               (Inl e2, tr2) \<Rightarrow> (Inr (scrape_error_msg e, scrape_error_msg e), tr2)
             | (Inr cleansed_text, tr2) \<Rightarrow> (Inr (cleansed_text, text), tr2))
          else (Inr (scrape_error_msg e, scrape_error_msg e), tr1))"

definition scrape_job_posting ::
  "env \<Rightarrow> event list \<Rightarrow> pystr \<Rightarrow> (exn + pystr \<times> pystr) \<times> event list" where
  "scrape_job_posting env tr url =
     (case scrape_try env tr url of
        (Inr result, tr1) \<Rightarrow> (Inr result, tr1)
      | (Inl e, tr1) \<Rightarrow> scrape_except env tr1 url e)"

section \<open>Resume parsing\<close>

text \<open>
  \<^verbatim>\<open>parse_pdf_resume\<close>: the loop appends each page's text and a newline (code point 10),
  the result is stripped; any exception becomes an \<^verbatim>\<open>HTTPException\<close> with status 400.
\<close>

definition parse_pdf_resume :: "env \<Rightarrow> pybytes \<Rightarrow> http_error + pystr" where
  "parse_pdf_resume env file_content =
     (case pdf_page_texts env file_content of
        Inl e \<Rightarrow> Inl (HTTPException 400 (lit ''Error parsing PDF: '' @ exn_str e))
      | Inr pages \<Rightarrow> Inr (py_strip (foldl (\<lambda>text page. text @ page @ [10]) [] pages)))"

definition parse_text_resume :: "pystr \<Rightarrow> pystr" where
  "parse_text_resume content = py_strip (re_sub_whitespace content)"

record upload_file =
  filename :: pystr
  file_bytes :: pybytes

text \<open>
  Lines 392--399 of \<^verbatim>\<open>optimize_resume\<close>. \<^verbatim>\<open>parse_text_resume(None)\<close> would raise a
  TypeError in \<^verbatim>\<open>re.sub\<close>.
\<close>

definition parse_resume ::
  "env \<Rightarrow> upload_file option \<Rightarrow> pystr option \<Rightarrow> http_error + pystr" where
  "parse_resume env resume_file resume_text =
     (case resume_file of
        Some f \<Rightarrow>
          if endswith (py_lower (filename f)) (lit ''.pdf'')
          then parse_pdf_resume env (file_bytes f)
          else (case decode_utf8 env (file_bytes f) of
                  Inl e \<Rightarrow> Inl (Unhandled e)
                | Inr content \<Rightarrow> Inr (parse_text_resume content))
      | None \<Rightarrow>
          (case resume_text of
             Some content \<Rightarrow> Inr (parse_text_resume content)
           | None \<Rightarrow> Inl (Unhandled (Error (lit ''TypeError'')))))"

section \<open>Resume optimization\<close>

text \<open>The three dict literals \<^verbatim>\<open>optimize_resume_with_llm\<close> returns in its handlers.\<close>

definition fallback_no_client :: "pystr \<Rightarrow> json" where
  "fallback_no_client resume =
     JObject
       [(lit ''optimized_resume'', JString resume),
        (lit ''suggestions'', JArray
           [JString (lit ''Add AWS credentials to .env file for AI-powered optimization''),
            JString (lit ''Review job requirements and align your skills''),
            JString (lit ''Highlight relevant experience''),
            JString (lit ''Use keywords from the job posting'')]),
        (lit ''match_score'', JNumber 0.5)]"

definition fallback_json_error :: "pystr \<Rightarrow> exn \<Rightarrow> json" where
  "fallback_json_error resume e =
     JObject
       [(lit ''optimized_resume'', JString resume),
        (lit ''suggestions'', JArray
           [JString (lit ''AI response parsing error''),
            JString (lit ''Please review job requirements manually''),
            JString (lit ''Consider adding keywords from the job posting''),
            JString (lit ''JSON Error: '' @ exn_str e)]),
        (lit ''match_score'', JNumber 0.5)]"

definition fallback_api_error :: "pystr \<Rightarrow> exn \<Rightarrow> json" where
  "fallback_api_error resume e =
     JObject
       [(lit ''optimized_resume'', JString resume),
        (lit ''suggestions'', JArray
           [JString (lit ''Could not connect to AWS Bedrock service''),
            JString (lit ''Please check AWS credentials and permissions''),
            JString (lit ''Ensure you have access to Claude model in Bedrock''),
            JString (lit ''Error: '' @ exn_str e)]),
        (lit ''match_score'', JNumber 0.5)]"

text \<open>Lines 330--334: the regular expression's match is parsed, the whole reply when
  there is none.\<close>

definition parse_claude_response :: "env \<Rightarrow> pystr \<Rightarrow> exn + json" where
  "parse_claude_response env claude_response =
     (case re_search_braces claude_response of
        Some json_match \<Rightarrow> json_loads env json_match
      | None \<Rightarrow> json_loads env claude_response)"

text \<open>The second \<^verbatim>\<open>try\<close> block (lines 301--336); the prompt embeds
  \<^verbatim>\<open>job_posting[:3000]\<close> and \<^verbatim>\<open>resume[:3000]\<close>.\<close>

definition optimize_try ::
  "env \<Rightarrow> event list \<Rightarrow> pystr \<Rightarrow> pystr \<Rightarrow> (exn + json) \<times> event list" where
  "optimize_try env tr job_posting resume =
     (let prompt = OptimizePrompt (take 3000 job_posting) (take 3000 resume) in
      case invoke_model env tr prompt of
        Inl e \<Rightarrow> (Inl e, tr @ [InvokeModel prompt])
      | Inr claude_response \<Rightarrow>
          (parse_claude_response env claude_response, tr @ [InvokeModel prompt]))"

definition optimize_resume_with_llm ::
  "env \<Rightarrow> event list \<Rightarrow> pystr \<Rightarrow> pystr \<Rightarrow> (exn + json) \<times> event list" where
  "optimize_resume_with_llm env tr job_posting resume =
     (case boto3_client env tr of
        Inl e \<Rightarrow> (Inr (fallback_no_client resume), tr)
      | Inr bedrock \<Rightarrow>
          (case optimize_try env tr job_posting resume of
             (Inr result, tr1) \<Rightarrow> (Inr result, tr1)
           | (Inl (JSONDecodeError m), tr1) \<Rightarrow>
               (Inr (fallback_json_error resume (JSONDecodeError m)), tr1)
           | (Inl (Error m), tr1) \<Rightarrow> (Inr (fallback_api_error resume (Error m)), tr1)))"

text \<open>What the spec asks of a result: the field is there and is a number in [0,1].\<close>

definition match_score_in_unit :: "json \<Rightarrow> bool" where
  "match_score_in_unit result =
     (case py_getitem result (lit ''match_score'') of
        Inr (JNumber x) \<Rightarrow> 0 \<le> x \<and> x \<le> 1
      | _ \<Rightarrow> False)"



section \<open>Request handlers\<close>

text \<open>
  Lines 405--430, the same in both \<^verbatim>\<open>optimize\<close> handlers: the three fields are read from
  the result and validated, the record is inserted, the response carries the store's id.
\<close>

definition persist_and_respond ::
  "env \<Rightarrow> event list \<Rightarrow> pystr \<Rightarrow> pystr \<Rightarrow> pystr \<Rightarrow> pystr \<Rightarrow> json
     \<Rightarrow> (http_error + response) \<times> event list" where
  "persist_and_respond env tr url cleansed raw resume_content optimization_result =
     (case py_getitem optimization_result (lit ''optimized_resume'') of
        Inl e \<Rightarrow> (Inl (Unhandled e), tr)
      | Inr v1 \<Rightarrow>
     (case py_getitem optimization_result (lit ''suggestions'') of
        Inl e \<Rightarrow> (Inl (Unhandled e), tr)
      | Inr v2 \<Rightarrow>
     (case py_getitem optimization_result (lit ''match_score'') of
        Inl e \<Rightarrow> (Inl (Unhandled e), tr)
      | Inr v3 \<Rightarrow>
     (case model_validate env v1 v2 v3 of
        Inl e \<Rightarrow> (Inl (Unhandled e), tr)
      | Inr (opt, sugg, score) \<Rightarrow>
          (let doc = \<lparr> user_email = lit ''anonymous@example.com'', job_url = url,
                       job_posting_content = cleansed, job_posting_raw = raw,
                       original_resume = resume_content, optimized_resume = opt,
                       suggestions = sugg, match_score = score, created_at = utcnow env tr \<rparr>
           in case insert_one env tr doc of
                Inl e \<Rightarrow> (Inl (Unhandled e), tr @ [InsertOne doc])
              | Inr new_id \<Rightarrow>
                  (Inr (ResumeResponse new_id opt sugg score (created_at doc) cleansed),
                   tr @ [InsertOne doc]))))))"

definition optimize_resume ::
  "env \<Rightarrow> event list \<Rightarrow> pystr \<Rightarrow> upload_file option \<Rightarrow> pystr option
     \<Rightarrow> (http_error + response) \<times> event list" where
  "optimize_resume env tr url resume_file resume_text =
     (if resume_file = None \<and> \<not> truthy resume_text then
        (Inl (HTTPException 400 (lit ''Either resume_file or resume_text must be provided'')), tr)
      else
        (case scrape_job_posting env tr url of
           (Inl e, tr1) \<Rightarrow> (Inl (Unhandled e), tr1)
         | (Inr (cleansed, raw), tr1) \<Rightarrow>
             (case parse_resume env resume_file resume_text of
                Inl err \<Rightarrow> (Inl err, tr1)
              | Inr resume_content \<Rightarrow>
                  (case optimize_resume_with_llm env tr1 cleansed resume_content of
                     (Inl e, tr2) \<Rightarrow> (Inl (Unhandled e), tr2)
                   | (Inr optimization_result, tr2) \<Rightarrow>
                       persist_and_respond env tr2 url cleansed raw
                         resume_content optimization_result))))"

record job_posting_request =
  url :: pystr
  resume_text :: "pystr option"

definition optimize_resume_json ::
  "env \<Rightarrow> event list \<Rightarrow> job_posting_request \<Rightarrow> (http_error + response) \<times> event list" where
  "optimize_resume_json env tr request =
     (case scrape_job_posting env tr (url request) of
        (Inl e, tr1) \<Rightarrow> (Inl (Unhandled e), tr1)
      | (Inr (cleansed, raw), tr1) \<Rightarrow>
          if \<not> truthy (resume_text request) then
            (Inl (HTTPException 400 (lit ''resume_text must be provided in JSON request'')), tr1)
          else
            (let resume_content = parse_text_resume (the (resume_text request)) in
             case optimize_resume_with_llm env tr1 cleansed resume_content of
               (Inl e, tr2) \<Rightarrow> (Inl (Unhandled e), tr2)
             | (Inr optimization_result, tr2) \<Rightarrow>
                 persist_and_respond env tr2 (url request) cleansed raw
                   resume_content optimization_result))"









section \<open>Notions the properties are stated with\<close>

text \<open>Page texts with a newline between consecutive pages.\<close>

fun join_lines :: "pystr list \<Rightarrow> pystr" where
  "join_lines [] = []"
| "join_lines [p] = p"
| "join_lines (p # q # ps) = p @ [10] @ join_lines (q # ps)"

text \<open>No whitespace at either end.\<close>

definition trimmed :: "pystr \<Rightarrow> bool" where
  "trimmed s = (s = [] \<or> (\<not> isspace (hd s) \<and> \<not> isspace (last s)))"

text \<open>Every whitespace character is a space (code point 32) with no whitespace after it.\<close>

fun single_spaced :: "pystr \<Rightarrow> bool" where
  "single_spaced [] = True"
| "single_spaced [c] = (\<not> isspace c \<or> c = 32)"
| "single_spaced (c # d # cs) =
     ((\<not> isspace c \<or> (c = 32 \<and> \<not> isspace d)) \<and> single_spaced (d # cs))"

text \<open>
  The words of a text, as \<^verbatim>\<open>str.split()\<close> gives them: the maximal runs of characters
  that are not whitespace. \<open>join_spaces\<close> puts one space between consecutive words.
\<close>

function ws_words :: "pystr \<Rightarrow> pystr list" where
  "ws_words [] = []"
| "ws_words (c # cs) =
     (if isspace c then ws_words cs
      else (c # takeWhile (\<lambda>x. \<not> isspace x) cs) # ws_words (dropWhile (\<lambda>x. \<not> isspace x) cs))"
  by pat_completeness auto
termination
  by (relation "measure length") (auto simp: length_dropWhile_le le_imp_less_Suc)

fun join_spaces :: "pystr list \<Rightarrow> pystr" where
  "join_spaces [] = []"
| "join_spaces [w] = w"
| "join_spaces (w # v # ws) = w @ [32] @ join_spaces (v # ws)"


section \<open>A concrete world for the examples\<close>

text \<open>
  Nothing answers: the static fetch and the browser time out, the model endpoint cannot be
  reached, the store is empty. \<open>json_loads\<close> knows one document, \<^verbatim>\<open>{}\<close>, and
  refuses every other text: with \<^verbatim>\<open>Extra data\<close> when more follows \<^verbatim>\<open>{}\<close>, as
  \<^verbatim>\<open>json.loads\<close> refuses \<^verbatim>\<open>{} }\<close>, with \<^verbatim>\<open>Expecting value\<close> otherwise. The
  examples change one answer at a time.
\<close>

definition offline_env :: env where
  "offline_env =
     \<lparr> http_get_text = (\<lambda>tr u. Inl (Error (lit ''ConnectTimeout''))),
       playwright_text = (\<lambda>tr u. Inl (Error (lit ''Timeout 60000ms exceeded''))),
       boto3_client = (\<lambda>tr. Inr ()),
       invoke_model = (\<lambda>tr p. Inl (Error (lit ''EndpointConnectionError''))),
       json_loads = (\<lambda>s. if s = lit ''{}'' then Inr (JObject [])
                          else if take 2 s = lit ''{}'' then Inl (JSONDecodeError (lit ''Extra data''))
                          else Inl (JSONDecodeError (lit ''Expecting value''))),
       pdf_page_texts = (\<lambda>b. Inl (Error (lit ''EOF marker not found''))),
       decode_utf8 = (\<lambda>b. if list_all (\<lambda>c. c < 128) b then Inr b
                           else Inl (Error (lit ''UnicodeDecodeError''))),
       find_one = (\<lambda>tr oid. Inr None),
       delete_one = (\<lambda>tr oid. Inr 0),
       insert_one = (\<lambda>tr doc. Inl (Error (lit ''ServerSelectionTimeoutError''))),
       model_validate = (\<lambda>v1 v2 v3. Inl (Error (lit ''ValidationError''))),
       utcnow = (\<lambda>tr. 0) \<rparr>"

section \<open>The cleanser and the extraction pipeline\<close>

lemma cleanse_returns:
  "\<exists>r. fst (cleanse_job_posting_with_llm env tr raw) = Inr r"
  by (simp add: cleanse_job_posting_with_llm_def Let_def split: sum.splits)

lemma cleanse_rendered_fetches:
  "rendered_fetches (snd (cleanse_job_posting_with_llm env tr raw)) = rendered_fetches tr"
  by (simp add: cleanse_job_posting_with_llm_def Let_def rendered_fetches_def split: sum.splits)

lemma cleanse_cases:
  obtains r tr' where "cleanse_job_posting_with_llm env tr raw = (Inr r, tr')"
    and "rendered_fetches tr' = rendered_fetches tr"
proof -
  obtain x tr' where eq: "cleanse_job_posting_with_llm env tr raw = (x, tr')"
    by (cases "cleanse_job_posting_with_llm env tr raw") auto
  from cleanse_returns [of env tr raw] eq obtain r where "x = Inr r" by auto
  moreover from cleanse_rendered_fetches [of env tr raw] eq
  have "rendered_fetches tr' = rendered_fetches tr" by simp
  ultimately show thesis using eq that by blast
qed

lemma rendered_fetches_static [simp]:
  "rendered_fetches (tr @ [StaticFetch u]) = rendered_fetches tr"
  by (simp add: rendered_fetches_def)

lemma rendered_fetches_rendered [simp]:
  "rendered_fetches (tr @ [RenderedFetch u]) = Suc (rendered_fetches tr)"
  by (simp add: rendered_fetches_def)

text \<open>
  Claim C7. When the static fetch succeeds with more than 500 characters of text,
  \<open>scrape_job_posting\<close> makes no rendered fetch: the events it adds hold no
  \<open>RenderedFetch\<close>, and the static text is returned as the raw text.
\<close>

theorem static_success_never_renders:
  assumes "http_get_text env tr u = Inr txt" and "500 < length txt"
  shows "rendered_fetches (snd (scrape_job_posting env tr u)) = rendered_fetches tr
         \<and> (\<exists>cleansed. fst (scrape_job_posting env tr u) = Inr (cleansed, txt))"
proof -
  obtain r tr2 where c: "cleanse_job_posting_with_llm env (tr @ [StaticFetch u]) txt = (Inr r, tr2)"
    and n: "rendered_fetches tr2 = rendered_fetches (tr @ [StaticFetch u])"
    by (rule cleanse_cases)
  have "scrape_job_posting env tr u = (Inr (r, txt), tr2)"
    using assms c by (simp add: scrape_job_posting_def scrape_try_def Let_def)
  with n show ?thesis by simp
qed

theorem static_success_never_renders_witness:
  "http_get_text (offline_env\<lparr>http_get_text := \<lambda>tr u. Inr (replicate 501 97)\<rparr>) []
       (lit ''https://example.com/job'') = Inr (replicate 501 97)
   \<and> 500 < length (replicate 501 (97::nat))
   \<and> rendered_fetches (snd (scrape_job_posting
         (offline_env\<lparr>http_get_text := \<lambda>tr u. Inr (replicate 501 97)\<rparr>) []
         (lit ''https://example.com/job''))) = 0"
  using static_success_never_renders
    [of "offline_env\<lparr>http_get_text := \<lambda>tr u. Inr (replicate 501 97)\<rparr>" "[]"
        "lit ''https://example.com/job''" "replicate 501 97"]
  by (simp add: rendered_fetches_def)

text \<open>
  Claim C1. The static fetch returns an empty page (at most 500 characters) and the browser
  times out. The rendered fetch of line 211 raises inside the \<^verbatim>\<open>try\<close> block, the handler
  of line 222 catches that exception and makes the rendered fetch of line 226 again: two
  rendered fetches before the error string is returned, where the claim says exactly one.
\<close>

theorem short_page_renders_twice:
  "scrape_job_posting (offline_env\<lparr>http_get_text := \<lambda>tr u. Inr []\<rparr>) []
       (lit ''https://example.com/job'')
   = (Inr (scrape_error_msg (Error (lit ''Timeout 60000ms exceeded'')),
           scrape_error_msg (Error (lit ''Timeout 60000ms exceeded''))),
      [StaticFetch (lit ''https://example.com/job''),
       RenderedFetch (lit ''https://example.com/job''),
       RenderedFetch (lit ''https://example.com/job'')])
   \<and> rendered_fetches (snd (scrape_job_posting (offline_env\<lparr>http_get_text := \<lambda>tr u. Inr []\<rparr>) []
       (lit ''https://example.com/job''))) = 2"
  by (simp add: scrape_job_posting_def scrape_try_def scrape_except_def
      scrape_with_playwright_def offline_env_def Let_def rendered_fetches_def)

text \<open>
  The number of rendered fetches in every case: none after a long static page, one when
  the static fetch raises or the first rendered fetch returns, two when the static page
  is short and the first rendered fetch raises.
\<close>

lemma scrape_except_rendered:
  "rendered_fetches (snd (scrape_except env tr u e)) = Suc (rendered_fetches tr)"
proof (cases "playwright_text env tr u")
  case (Inl e2)
  then show ?thesis by (simp add: scrape_except_def scrape_with_playwright_def)
next
  case (Inr t2)
  obtain r tr' where "cleanse_job_posting_with_llm env (tr @ [RenderedFetch u]) t2 = (Inr r, tr')"
    and "rendered_fetches tr' = rendered_fetches (tr @ [RenderedFetch u])"
    by (rule cleanse_cases)
  with Inr show ?thesis by (simp add: scrape_except_def scrape_with_playwright_def)
qed

lemma rendered_fetch_count:
  "rendered_fetches (snd (scrape_job_posting env tr u)) =
     (case http_get_text env tr u of
        Inl e \<Rightarrow> rendered_fetches tr + 1
      | Inr t1 \<Rightarrow>
          if 500 < length t1 then rendered_fetches tr
          else (case playwright_text env (tr @ [StaticFetch u]) u of
                  Inl e \<Rightarrow> rendered_fetches tr + 2
                | Inr t2 \<Rightarrow> rendered_fetches tr + 1))"
proof (cases "http_get_text env tr u")
  case (Inl e)
  then have "scrape_job_posting env tr u = scrape_except env (tr @ [StaticFetch u]) u e"
    by (simp add: scrape_job_posting_def scrape_try_def)
  with Inl show ?thesis by (simp add: scrape_except_rendered)
next
  case (Inr t1)
  show ?thesis
  proof (cases "500 < length t1")
    case True
    obtain r tr' where
      "cleanse_job_posting_with_llm env (tr @ [StaticFetch u]) t1 = (Inr r, tr')"
      and "rendered_fetches tr' = rendered_fetches (tr @ [StaticFetch u])"
      by (rule cleanse_cases)
    with Inr True show ?thesis
      by (simp add: scrape_job_posting_def scrape_try_def Let_def)
  next
    case False
    show ?thesis
    proof (cases "playwright_text env (tr @ [StaticFetch u]) u")
      case (Inl e)
      from Inl \<open>http_get_text env tr u = Inr t1\<close> False
      have "scrape_job_posting env tr u
              = scrape_except env (tr @ [StaticFetch u, RenderedFetch u]) u e"
        by (simp add: scrape_job_posting_def scrape_try_def scrape_with_playwright_def)
      moreover have "rendered_fetches (tr @ [StaticFetch u, RenderedFetch u])
                       = Suc (rendered_fetches tr)"
        by (simp add: rendered_fetches_def)
      ultimately show ?thesis
        using Inl \<open>http_get_text env tr u = Inr t1\<close> False
        by (simp add: scrape_except_rendered)
    next
      case (Inr t2)
      obtain r tr' where
        "cleanse_job_posting_with_llm env (tr @ [StaticFetch u, RenderedFetch u]) t2 = (Inr r, tr')"
        and "rendered_fetches tr' = rendered_fetches (tr @ [StaticFetch u, RenderedFetch u])"
        by (rule cleanse_cases)
      with Inr \<open>http_get_text env tr u = Inr t1\<close> False show ?thesis
        by (simp add: scrape_job_posting_def scrape_try_def scrape_with_playwright_def
            rendered_fetches_def Let_def)
    qed
  qed
qed

lemma cleanse_trace:
  "\<exists>evs. snd (cleanse_job_posting_with_llm env tr raw) = tr @ evs"
  by (simp add: cleanse_job_posting_with_llm_def Let_def split: sum.splits)

lemma cleanse_full:
  obtains r evs where "cleanse_job_posting_with_llm env tr raw = (Inr r, tr @ evs)"
proof -
  obtain x tr' where eq: "cleanse_job_posting_with_llm env tr raw = (x, tr')"
    by (cases "cleanse_job_posting_with_llm env tr raw") auto
  from cleanse_returns [of env tr raw] eq obtain r where "x = Inr r" by auto
  moreover from cleanse_trace [of env tr raw] eq obtain evs where "tr' = tr @ evs" by auto
  ultimately show thesis using eq that by blast
qed

lemma scrape_try_trace:
  "\<exists>evs. snd (scrape_try env tr u) = tr @ StaticFetch u # evs"
proof (cases "http_get_text env tr u")
  case (Inl e)
  then show ?thesis by (simp add: scrape_try_def)
next
  case (Inr t1)
  show ?thesis
  proof (cases "500 < length t1")
    case True
    obtain r evs where
      "cleanse_job_posting_with_llm env (tr @ [StaticFetch u]) t1
         = (Inr r, (tr @ [StaticFetch u]) @ evs)"
      by (rule cleanse_full)
    with Inr True show ?thesis by (simp add: scrape_try_def Let_def)
  next
    case False
    show ?thesis
    proof (cases "playwright_text env (tr @ [StaticFetch u]) u")
      case (Inl e)
      with \<open>http_get_text env tr u = Inr t1\<close> False show ?thesis
        by (simp add: scrape_try_def Let_def scrape_with_playwright_def)
    next
      case (Inr t2)
      obtain r evs where
        "cleanse_job_posting_with_llm env (tr @ [StaticFetch u, RenderedFetch u]) t2
           = (Inr r, (tr @ [StaticFetch u, RenderedFetch u]) @ evs)"
        by (rule cleanse_full)
      with \<open>http_get_text env tr u = Inr t1\<close> False Inr show ?thesis
        by (simp add: scrape_try_def Let_def scrape_with_playwright_def)
    qed
  qed
qed

lemma scrape_except_returns:
  "\<exists>c r evs. scrape_except env tr u e = (Inr (c, r), tr @ evs)"
proof (cases "playwright_text env tr u")
  case (Inl e2)
  then show ?thesis by (simp add: scrape_except_def scrape_with_playwright_def)
next
  case (Inr t2)
  obtain r evs where
    "cleanse_job_posting_with_llm env (tr @ [RenderedFetch u]) t2
       = (Inr r, (tr @ [RenderedFetch u]) @ evs)"
    by (rule cleanse_full)
  with Inr show ?thesis by (simp add: scrape_except_def scrape_with_playwright_def)
qed

text \<open>
  \<open>scrape_job_posting\<close> never raises, and the first thing it does is the static fetch.
\<close>

lemma scrape_returns:
  "\<exists>c r evs. scrape_job_posting env tr u = (Inr (c, r), tr @ StaticFetch u # evs)"
proof -
  obtain x tr1 where t: "scrape_try env tr u = (x, tr1)"
    by (cases "scrape_try env tr u") auto
  from scrape_try_trace [of env tr u] t obtain evs where tr1: "tr1 = tr @ StaticFetch u # evs"
    by auto
  show ?thesis
  proof (cases x)
    case (Inr p)
    with t tr1 show ?thesis by (cases p) (simp add: scrape_job_posting_def)
  next
    case (Inl e)
    from scrape_except_returns [of env tr1 u e] obtain c r evs2
      where "scrape_except env tr1 u e = (Inr (c, r), tr1 @ evs2)" by blast
    with t tr1 Inl show ?thesis by (simp add: scrape_job_posting_def)
  qed
qed

text \<open>
  Claim C8. \<open>cleanse_job_posting_with_llm\<close> never raises; the only call to the model it
  makes, if any, carries the first 8000 characters of its input; and when the client
  cannot be created or the call to the model fails, the result is the first 5000
  characters of the input.
\<close>

theorem cleanse_truncates_and_falls_back:
  "\<exists>r. fst (cleanse_job_posting_with_llm env tr raw) = Inr r
     \<and> (snd (cleanse_job_posting_with_llm env tr raw) = tr
        \<or> snd (cleanse_job_posting_with_llm env tr raw)
            = tr @ [InvokeModel (CleansePrompt (take 8000 raw))])
     \<and> (((\<exists>e. boto3_client env tr = Inl e)
          \<or> (\<exists>e. invoke_model env tr (CleansePrompt (take 8000 raw)) = Inl e))
         \<longrightarrow> r = take 5000 raw)"
  by (auto simp: cleanse_job_posting_with_llm_def Let_def split: sum.splits)

theorem cleanse_truncates_and_falls_back_witness:
  "(\<exists>e. invoke_model offline_env [] (CleansePrompt (take 8000 (replicate 9000 97))) = Inl e)
   \<and> cleanse_job_posting_with_llm offline_env [] (replicate 9000 97)
       = (Inr (replicate 5000 97), [InvokeModel (CleansePrompt (replicate 8000 97))])"
  using cleanse_truncates_and_falls_back [of offline_env "[]" "replicate 9000 97"]
  by (auto simp: offline_env_def cleanse_job_posting_with_llm_def Let_def)

section \<open>Non-empty results\<close>

lemma lit_nonempty [simp]: "lit (c # s) \<noteq> []"
  by (simp add: lit_def)

lemma error_msgs_nonempty [simp]:
  "extract_error_msg \<noteq> []" "scrape_error_msg e \<noteq> []"
  by (simp_all add: extract_error_msg_def scrape_error_msg_def lit_def)

lemma cleanse_answer:
  assumes "cleanse_job_posting_with_llm env tr raw = (Inr c, tr')" and "raw \<noteq> []"
  shows "c \<noteq> [] \<or> (tr' = tr @ [InvokeModel (CleansePrompt (take 8000 raw))]
           \<and> invoke_model env tr (CleansePrompt (take 8000 raw)) = Inr [])"
  using assms
  by (auto simp: cleanse_job_posting_with_llm_def Let_def split: sum.splits)

lemma scrape_try_answer:
  assumes "scrape_try env tr u = (Inr (c, r), tr')"
  shows "r \<noteq> [] \<and>
    (c = [] \<longrightarrow> (\<exists>h. tr' = h @ [InvokeModel (CleansePrompt (take 8000 r))]
                   \<and> invoke_model env h (CleansePrompt (take 8000 r)) = Inr []))"
  using assms
  by (auto simp: scrape_try_def Let_def scrape_with_playwright_def
      split: sum.splits prod.splits if_splits dest!: cleanse_answer)

lemma scrape_except_answer:
  assumes "scrape_except env tr u e = (Inr (c, r), tr')"
  shows "r \<noteq> [] \<and>
    (c = [] \<longrightarrow> (\<exists>h. tr' = h @ [InvokeModel (CleansePrompt (take 8000 r))]
                   \<and> invoke_model env h (CleansePrompt (take 8000 r)) = Inr []))"
  using assms
  by (auto simp: scrape_except_def Let_def scrape_with_playwright_def
      split: sum.splits prod.splits if_splits dest!: cleanse_answer)

lemma scrape_answer:
  assumes "scrape_job_posting env tr u = (Inr (c, r), tr')"
  shows "r \<noteq> [] \<and>
    (c = [] \<longrightarrow> (\<exists>h. tr' = h @ [InvokeModel (CleansePrompt (take 8000 r))]
                   \<and> invoke_model env h (CleansePrompt (take 8000 r)) = Inr []))"
  using assms
  by (auto simp: scrape_job_posting_def split: sum.splits prod.splits
      dest: scrape_try_answer scrape_except_answer)

section \<open>The optimizer's results\<close>

lemma fallback_fields [simp]:
  "py_getitem (fallback_no_client resume) (lit ''optimized_resume'') = Inr (JString resume)"
  "py_getitem (fallback_json_error resume e) (lit ''optimized_resume'') = Inr (JString resume)"
  "py_getitem (fallback_api_error resume e) (lit ''optimized_resume'') = Inr (JString resume)"
  "py_getitem (fallback_no_client resume) (lit ''match_score'') = Inr (JNumber 0.5)"
  "py_getitem (fallback_json_error resume e) (lit ''match_score'') = Inr (JNumber 0.5)"
  "py_getitem (fallback_api_error resume e) (lit ''match_score'') = Inr (JNumber 0.5)"
  by (simp_all add: fallback_no_client_def fallback_json_error_def fallback_api_error_def lit_def)

lemma fallback_in_unit [simp]:
  "match_score_in_unit (fallback_no_client resume)"
  "match_score_in_unit (fallback_json_error resume e)"
  "match_score_in_unit (fallback_api_error resume e)"
  by (simp_all add: match_score_in_unit_def)

text \<open>
  The four ways through \<open>optimize_resume_with_llm\<close>: no client, the call to the model
  fails, the reply does not parse, the reply parses and is returned as it is.
\<close>

lemma optimize_cases:
  "(\<exists>e. boto3_client env tr = Inl e
        \<and> optimize_resume_with_llm env tr jp resume = (Inr (fallback_no_client resume), tr))
   \<or> (\<exists>b e. boto3_client env tr = Inr b
        \<and> invoke_model env tr (OptimizePrompt (take 3000 jp) (take 3000 resume)) = Inl e
        \<and> (fst (optimize_resume_with_llm env tr jp resume) = Inr (fallback_json_error resume e)
           \<or> fst (optimize_resume_with_llm env tr jp resume) = Inr (fallback_api_error resume e)))
   \<or> (\<exists>b reply e. boto3_client env tr = Inr b
        \<and> invoke_model env tr (OptimizePrompt (take 3000 jp) (take 3000 resume)) = Inr reply
        \<and> parse_claude_response env reply = Inl e
        \<and> (fst (optimize_resume_with_llm env tr jp resume) = Inr (fallback_json_error resume e)
           \<or> fst (optimize_resume_with_llm env tr jp resume) = Inr (fallback_api_error resume e)))
   \<or> (\<exists>b reply v. boto3_client env tr = Inr b
        \<and> invoke_model env tr (OptimizePrompt (take 3000 jp) (take 3000 resume)) = Inr reply
        \<and> parse_claude_response env reply = Inr v
        \<and> fst (optimize_resume_with_llm env tr jp resume) = Inr v)"
  by (auto simp: optimize_resume_with_llm_def optimize_try_def Let_def
      split: sum.splits exn.splits)

text \<open>
  Claim C4. \<open>optimize_resume_with_llm\<close> always returns a result, never an exception; and
  when the client cannot be created, the call to the model fails, or the reply does not
  parse, the result carries the resume argument unchanged as \<open>optimized_resume\<close> and
  0.5 as \<open>match_score\<close>.
\<close>

theorem optimize_never_raises:
  "\<exists>r. fst (optimize_resume_with_llm env tr jp resume) = Inr r
     \<and> (((\<exists>e. boto3_client env tr = Inl e)
          \<or> (\<exists>e. invoke_model env tr (OptimizePrompt (take 3000 jp) (take 3000 resume)) = Inl e)
          \<or> (\<exists>reply e.
                invoke_model env tr (OptimizePrompt (take 3000 jp) (take 3000 resume)) = Inr reply
                \<and> parse_claude_response env reply = Inl e))
         \<longrightarrow> py_getitem r (lit ''optimized_resume'') = Inr (JString resume)
             \<and> py_getitem r (lit ''match_score'') = Inr (JNumber 0.5))"
  using optimize_cases [of env tr jp resume]
  by (elim disjE exE conjE) auto

theorem optimize_never_raises_witness:
  "(\<exists>e. invoke_model offline_env []
           (OptimizePrompt (take 3000 (lit ''Python developer'')) (take 3000 (lit ''5 years Python'')))
         = Inl e)
   \<and> (\<exists>r. fst (optimize_resume_with_llm offline_env [] (lit ''Python developer'')
                 (lit ''5 years Python'')) = Inr r
        \<and> py_getitem r (lit ''optimized_resume'') = Inr (JString (lit ''5 years Python''))
        \<and> py_getitem r (lit ''match_score'') = Inr (JNumber 0.5))"
proof -
  have f: "\<exists>e. invoke_model offline_env []
           (OptimizePrompt (take 3000 (lit ''Python developer'')) (take 3000 (lit ''5 years Python'')))
         = Inl e"
    by (simp add: offline_env_def)
  from optimize_never_raises
    [of offline_env "[]" "lit ''Python developer''" "lit ''5 years Python''"] f
  show ?thesis by blast
qed




text \<open>
  Claim C5, as the code has it. \<open>scrape_job_posting\<close> always returns a pair whose raw
  text is not empty; its cleansed text is empty only when the last thing it did was to send
  the cleansing prompt for that raw text and the model answered that call with the empty
  text. \<open>optimize_resume_with_llm\<close> returns an empty \<open>optimized_resume\<close> only when
  its resume argument is empty or the value is the one parsed from the model's reply to
  its call.
\<close>

theorem empty_only_from_model_or_input:
  "(\<exists>c r. fst (scrape_job_posting env tr u) = Inr (c, r) \<and> r \<noteq> []
      \<and> (c = [] \<longrightarrow>
           (\<exists>h. snd (scrape_job_posting env tr u) = h @ [InvokeModel (CleansePrompt (take 8000 r))]
              \<and> invoke_model env h (CleansePrompt (take 8000 r)) = Inr [])))
   \<and> (\<exists>res. fst (optimize_resume_with_llm env tr jp resume) = Inr res
      \<and> (py_getitem res (lit ''optimized_resume'') = Inr (JString []) \<longrightarrow>
           resume = []
           \<or> (\<exists>reply.
                 invoke_model env tr (OptimizePrompt (take 3000 jp) (take 3000 resume)) = Inr reply
                 \<and> parse_claude_response env reply = Inr res)))"
proof
  from scrape_returns [of env tr u] obtain c r evs
    where s: "scrape_job_posting env tr u = (Inr (c, r), tr @ StaticFetch u # evs)" by blast
  from scrape_answer [OF s] s
  show "\<exists>c r. fst (scrape_job_posting env tr u) = Inr (c, r) \<and> r \<noteq> []
      \<and> (c = [] \<longrightarrow>
           (\<exists>h. snd (scrape_job_posting env tr u) = h @ [InvokeModel (CleansePrompt (take 8000 r))]
              \<and> invoke_model env h (CleansePrompt (take 8000 r)) = Inr []))"
    by auto
next
  show "\<exists>res. fst (optimize_resume_with_llm env tr jp resume) = Inr res
      \<and> (py_getitem res (lit ''optimized_resume'') = Inr (JString []) \<longrightarrow>
           resume = []
           \<or> (\<exists>reply.
                 invoke_model env tr (OptimizePrompt (take 3000 jp) (take 3000 resume)) = Inr reply
                 \<and> parse_claude_response env reply = Inr res))"
    using optimize_cases [of env tr jp resume]
    by (elim disjE exE conjE) auto
qed

theorem empty_only_from_model_or_input_witness:
  "scrape_job_posting
         (offline_env\<lparr>http_get_text := \<lambda>tr u. Inr (replicate 600 97),
                       invoke_model := \<lambda>tr p. Inr []\<rparr>)
         [] (lit ''https://example.com/job'')
     = (Inr ([], replicate 600 97),
        [StaticFetch (lit ''https://example.com/job'')]
          @ [InvokeModel (CleansePrompt (take 8000 (replicate 600 97)))])
   \<and> invoke_model
         (offline_env\<lparr>http_get_text := \<lambda>tr u. Inr (replicate 600 97),
                       invoke_model := \<lambda>tr p. Inr []\<rparr>)
         [StaticFetch (lit ''https://example.com/job'')]
         (CleansePrompt (take 8000 (replicate 600 97))) = Inr []
   \<and> (\<exists>res. fst (optimize_resume_with_llm
                   (offline_env\<lparr>http_get_text := \<lambda>tr u. Inr (replicate 600 97),
                                 invoke_model := \<lambda>tr p. Inr []\<rparr>)
                   [] (lit ''Python developer'') []) = Inr res
        \<and> py_getitem res (lit ''optimized_resume'') = Inr (JString []))"
proof -
  let ?env = "offline_env\<lparr>http_get_text := \<lambda>tr u. Inr (replicate 600 97),
                       invoke_model := \<lambda>tr p. Inr []\<rparr>"
  have a: "scrape_job_posting ?env [] (lit ''https://example.com/job'')
     = (Inr ([], replicate 600 97),
        [StaticFetch (lit ''https://example.com/job'')]
          @ [InvokeModel (CleansePrompt (take 8000 (replicate 600 97)))])"
    by (simp add: scrape_job_posting_def scrape_try_def cleanse_job_posting_with_llm_def
        offline_env_def Let_def)
  have b: "fst (optimize_resume_with_llm ?env [] (lit ''Python developer'') [])
             = Inr (fallback_json_error [] (JSONDecodeError (lit ''Expecting value'')))"
    by (simp add: optimize_resume_with_llm_def optimize_try_def parse_claude_response_def
        re_search_braces_def offline_env_def Let_def lit_def)
  from empty_only_from_model_or_input [of ?env "[]" "lit ''https://example.com/job''" "lit ''Python developer''" "[]"]
  obtain c r where f: "fst (scrape_job_posting ?env [] (lit ''https://example.com/job'')) = Inr (c, r)"
    and i: "c = [] \<longrightarrow>
           (\<exists>h. snd (scrape_job_posting ?env [] (lit ''https://example.com/job''))
                  = h @ [InvokeModel (CleansePrompt (take 8000 r))]
              \<and> invoke_model ?env h (CleansePrompt (take 8000 r)) = Inr [])"
    by blast
  from f a have cr: "c = []" "r = replicate 600 97" by simp_all
  with i a obtain h where
    "[StaticFetch (lit ''https://example.com/job'')]
          @ [InvokeModel (CleansePrompt (take 8000 (replicate 600 97)))]
       = h @ [InvokeModel (CleansePrompt (take 8000 (replicate 600 97)))]"
    and m: "invoke_model ?env h (CleansePrompt (take 8000 (replicate 600 97))) = Inr []"
    by auto
  then have "h = [StaticFetch (lit ''https://example.com/job'')]" by simp
  with m a b show ?thesis by simp
qed

text \<open>
  Claim C5, as stated, fails twice. The static fetch returns 501 characters and the model
  answers the cleansing prompt with the empty text: the cleansed text is empty. A resume
  text of three spaces passes the handlers' check, is normalised to the empty string, and
  the fallback result returns it as \<open>optimized_resume\<close>.
\<close>

theorem cleansed_and_optimized_can_be_empty:
  "fst (scrape_job_posting
         (offline_env\<lparr>http_get_text := \<lambda>tr u. Inr (replicate 501 97),
                       invoke_model := \<lambda>tr p. Inr []\<rparr>)
         [] (lit ''https://example.com/job'')) = Inr ([], replicate 501 97)
   \<and> truthy (Some (lit ''   ''))
   \<and> parse_text_resume (lit ''   '') = []
   \<and> fst (optimize_resume_with_llm offline_env [] (lit ''Python developer'')
            (parse_text_resume (lit ''   '')))
       = Inr (fallback_api_error [] (Error (lit ''EndpointConnectionError'')))
   \<and> py_getitem (fallback_api_error [] (Error (lit ''EndpointConnectionError'')))
        (lit ''optimized_resume'') = Inr (JString [])"
  by (simp add: scrape_job_posting_def scrape_try_def cleanse_job_posting_with_llm_def
      optimize_resume_with_llm_def optimize_try_def offline_env_def Let_def
      parse_text_resume_def py_strip_def isspace_def fallback_api_error_def lit_def)

section \<open>Properties of the request handlers\<close>

text \<open>
  Claim C10. When \<^verbatim>\<open>resume_text\<close> is absent or empty, \<open>optimize_resume_json\<close> ends with
  the \<^verbatim>\<open>HTTPException\<close> of status 400 only after \<open>scrape_job_posting\<close> has run: the
  events of the whole extraction, starting with the static fetch of the URL, have been
  made when the error is raised.
\<close>

theorem json_handler_scrapes_before_400:
  assumes "\<not> truthy (resume_text request)"
  shows "\<exists>evs. optimize_resume_json env tr request =
           (Inl (HTTPException 400 (lit ''resume_text must be provided in JSON request'')),
            snd (scrape_job_posting env tr (url request)))
         \<and> snd (scrape_job_posting env tr (url request)) = tr @ StaticFetch (url request) # evs"
proof -
  from scrape_returns [of env tr "url request"] obtain c r evs
    where "scrape_job_posting env tr (url request)
             = (Inr (c, r), tr @ StaticFetch (url request) # evs)"
    by blast
  with assms show ?thesis by (simp add: optimize_resume_json_def)
qed

theorem json_handler_scrapes_before_400_witness:
  "\<not> truthy (resume_text \<lparr>url = lit ''https://example.com/job'', resume_text = None\<rparr>)
   \<and> optimize_resume_json offline_env []
        \<lparr>url = lit ''https://example.com/job'', resume_text = None\<rparr>
       = (Inl (HTTPException 400 (lit ''resume_text must be provided in JSON request'')),
          [StaticFetch (lit ''https://example.com/job''),
           RenderedFetch (lit ''https://example.com/job'')])"
proof -
  have tr: "snd (scrape_job_posting offline_env [] (lit ''https://example.com/job''))
     = [StaticFetch (lit ''https://example.com/job''),
        RenderedFetch (lit ''https://example.com/job'')]"
    by (simp add: scrape_job_posting_def scrape_try_def scrape_except_def
        scrape_with_playwright_def offline_env_def)
  from json_handler_scrapes_before_400
    [of "\<lparr>url = lit ''https://example.com/job'', resume_text = None\<rparr>" offline_env "[]"] tr
  show ?thesis by simp
qed









section \<open>Extraction of the JSON object from the reply\<close>






section \<open>The resume parser\<close>

lemma foldl_pages:
  "foldl (\<lambda>text page. text @ page @ [10]) acc pages = acc @ concat (map (\<lambda>p. p @ [10]) pages)"
  by (induction pages arbitrary: acc) simp_all

lemma concat_pages:
  "pages \<noteq> [] \<Longrightarrow> concat (map (\<lambda>p. p @ [10]) pages) = join_lines pages @ [10]"
  by (induction pages rule: join_lines.induct) simp_all

lemma py_strip_snoc_space:
  assumes "isspace c"
  shows "py_strip (s @ [c]) = py_strip s"
proof (cases "\<forall>x\<in>set s. isspace x")
  case True
  with assms have "dropWhile isspace (s @ [c]) = []" "dropWhile isspace s = []" by auto
  then show ?thesis unfolding py_strip_def by (simp only:)
next
  case False
  then have "dropWhile isspace (s @ [c]) = dropWhile isspace s @ [c]"
    by (simp add: dropWhile_append)
  with assms show ?thesis by (simp add: py_strip_def)
qed

lemma isspace_newline [simp]: "isspace 10" and isspace_space [simp]: "isspace 32"
  by (simp_all add: isspace_def)

lemma pdf_text:
  "py_strip (foldl (\<lambda>text page. text @ page @ [10]) [] pages) = py_strip (join_lines pages)"
proof (cases "pages = []")
  case True
  then show ?thesis by simp
next
  case False
  then have "foldl (\<lambda>text page. text @ page @ [10]) [] pages = join_lines pages @ [10]"
    by (simp add: foldl_pages concat_pages)
  then show ?thesis by (simp only: py_strip_snoc_space [OF isspace_newline])
qed

lemma last_dropWhile:
  "dropWhile P xs \<noteq> [] \<Longrightarrow> last (dropWhile P xs) = last xs"
  by (induction xs) (auto split: if_splits)

lemma trimmed_strip: "trimmed (py_strip s)"
proof (cases "py_strip s = []")
  case True
  then show ?thesis by (simp add: trimmed_def)
next
  case False
  let ?t = "dropWhile isspace s"
  let ?u = "dropWhile isspace (rev ?t)"
  from False have u: "?u \<noteq> []" by (simp add: py_strip_def)
  then have t: "?t \<noteq> []" by (metis dropWhile.simps(1) rev.simps(1))
  have "\<not> isspace (hd ?u)" using u by (rule hd_dropWhile)
  then have l: "\<not> isspace (last (py_strip s))"
    using u by (simp add: py_strip_def last_rev)
  have "last ?u = last (rev ?t)" using u by (rule last_dropWhile)
  also have "\<dots> = hd ?t" using t by (simp add: last_rev)
  finally have "hd (py_strip s) = hd ?t"
    using u by (simp add: py_strip_def hd_rev)
  moreover have "\<not> isspace (hd ?t)" using t by (rule hd_dropWhile)
  ultimately show ?thesis using l by (simp add: trimmed_def)
qed

lemma single_spaced_nonspace [simp]:
  "\<not> isspace c \<Longrightarrow> single_spaced (c # r) = single_spaced r"
  by (cases r) simp_all

lemma single_spaced_tl: "single_spaced (c # cs) \<Longrightarrow> single_spaced cs"
  by (cases cs) simp_all

lemma single_spaced_dropWhile: "single_spaced s \<Longrightarrow> single_spaced (dropWhile P s)"
  by (induction s) (auto dest: single_spaced_tl)

lemma single_spaced_prefix: "single_spaced (xs @ ys) \<Longrightarrow> single_spaced xs"
proof (induction xs rule: single_spaced.induct)
  case 1
  show ?case by simp
next
  case (2 c)
  then show ?case by (cases ys) auto
next
  case (3 c d cs)
  then show ?case by auto
qed

lemma rev_dropWhile_rev_prefix:
  "\<exists>ys. xs = rev (dropWhile P (rev xs)) @ ys"
proof -
  have "rev xs = takeWhile P (rev xs) @ dropWhile P (rev xs)" by simp
  then have "xs = rev (takeWhile P (rev xs) @ dropWhile P (rev xs))" by (metis rev_rev_ident)
  then show ?thesis by (metis rev_append)
qed

lemma single_spaced_strip: "single_spaced s \<Longrightarrow> single_spaced (py_strip s)"
proof -
  assume "single_spaced s"
  then have d: "single_spaced (dropWhile isspace s)" by (rule single_spaced_dropWhile)
  obtain ys where "dropWhile isspace s = py_strip s @ ys"
    unfolding py_strip_def using rev_dropWhile_rev_prefix by blast
  with d show ?thesis by (metis single_spaced_prefix)
qed

lemma re_sub_head:
  "s \<noteq> [] \<Longrightarrow> \<not> isspace (hd s) \<Longrightarrow> \<exists>r. re_sub_whitespace s = hd s # r"
  by (cases s) simp_all

lemma single_spaced_re_sub: "single_spaced (re_sub_whitespace s)"
proof (induction s rule: re_sub_whitespace.induct)
  case 1
  show ?case by simp
next
  case (2 c cs)
  show ?case
  proof (cases "isspace c")
    case False
    with 2 show ?thesis by simp
  next
    case True
    let ?t = "dropWhile isspace cs"
    show ?thesis
    proof (cases "?t = []")
      case e: True
      with True show ?thesis by (simp del: dropWhile_eq_Nil_conv)
    next
      case ne: False
      then have "\<not> isspace (hd ?t)" by (rule hd_dropWhile)
      with ne obtain r where r: "re_sub_whitespace ?t = hd ?t # r"
        using re_sub_head by blast
      with 2(1) [OF True] True \<open>\<not> isspace (hd ?t)\<close> show ?thesis by simp
    qed
  qed
qed

lemma filter_dropWhile_space:
  "filter (\<lambda>c. \<not> isspace c) (dropWhile isspace s) = filter (\<lambda>c. \<not> isspace c) s"
  by (induction s) auto

lemma filter_re_sub:
  "filter (\<lambda>c. \<not> isspace c) (re_sub_whitespace s) = filter (\<lambda>c. \<not> isspace c) s"
  by (induction s rule: re_sub_whitespace.induct) (auto simp: filter_dropWhile_space)

lemma filter_strip:
  "filter (\<lambda>c. \<not> isspace c) (py_strip s) = filter (\<lambda>c. \<not> isspace c) s"
proof -
  have "filter (\<lambda>c. \<not> isspace c) (py_strip s)
        = rev (filter (\<lambda>c. \<not> isspace c) (dropWhile isspace (rev (dropWhile isspace s))))"
    by (simp add: py_strip_def rev_filter)
  also have "\<dots> = rev (filter (\<lambda>c. \<not> isspace c) (rev (dropWhile isspace s)))"
    by (simp only: filter_dropWhile_space)
  also have "\<dots> = filter (\<lambda>c. \<not> isspace c) (dropWhile isspace s)"
    by (simp add: rev_filter)
  finally show ?thesis by (simp add: filter_dropWhile_space)
qed

lemma endswith_iff: "endswith s suffix \<longleftrightarrow> (\<exists>stem. s = stem @ suffix)"
proof
  assume "endswith s suffix"
  then have "s = take (length s - length suffix) s @ suffix"
    by (metis append_take_drop_id endswith_def)
  then show "\<exists>stem. s = stem @ suffix" ..
next
  assume "\<exists>stem. s = stem @ suffix"
  then show "endswith s suffix" by (auto simp: endswith_def)
qed

lemma pdf_suffix_iff:
  "endswith (py_lower fn) (lit ''.pdf'') \<longleftrightarrow>
     (\<exists>stem p d f. fn = stem @ [46, p, d, f] \<and> p \<in> {80, 112} \<and> d \<in> {68, 100} \<and> f \<in> {70, 102})"
proof
  assume "endswith (py_lower fn) (lit ''.pdf'')"
  then show "\<exists>stem p d f. fn = stem @ [46, p, d, f] \<and> p \<in> {80, 112} \<and> d \<in> {68, 100}
      \<and> f \<in> {70, 102}"
    by (auto simp: endswith_iff py_lower_def lit_def map_eq_append_conv map_eq_Cons_conv
        split: if_splits)
next
  assume "\<exists>stem p d f. fn = stem @ [46, p, d, f] \<and> p \<in> {80, 112} \<and> d \<in> {68, 100}
      \<and> f \<in> {70, 102}"
  then obtain stem p d f where fn: "fn = stem @ [46, p, d, f]"
    and l: "p \<in> {80, 112}" "d \<in> {68, 100}" "f \<in> {70, 102}" by blast
  from l have "py_lower [46, p, d, f] = lit ''.pdf''"
    by (auto simp: py_lower_def lit_def)
  then have "py_lower fn = py_lower stem @ lit ''.pdf''"
    unfolding fn by (simp add: py_lower_def)
  then show "endswith (py_lower fn) (lit ''.pdf'')"
    unfolding endswith_iff by blast
qed

text \<open>
  \<open>parse_text_resume\<close> returns the words of its input with one space between them.
\<close>

lemma re_sub_word:
  "\<forall>x\<in>set w. \<not> isspace x \<Longrightarrow> re_sub_whitespace (w @ s) = w @ re_sub_whitespace s"
  by (induction w) simp_all

lemma re_sub_nonspace:
  assumes "\<not> isspace c"
  shows "re_sub_whitespace (c # cs)
         = (c # takeWhile (\<lambda>x. \<not> isspace x) cs)
             @ re_sub_whitespace (dropWhile (\<lambda>x. \<not> isspace x) cs)"
proof -
  have "\<forall>x\<in>set (c # takeWhile (\<lambda>x. \<not> isspace x) cs). \<not> isspace x"
    using assms by (auto dest: set_takeWhileD)
  from re_sub_word [OF this, of "dropWhile (\<lambda>x. \<not> isspace x) cs"]
  show ?thesis by simp
qed

lemma py_strip_space_cons: "isspace c \<Longrightarrow> py_strip (c # x) = py_strip x"
  by (simp add: py_strip_def)

lemma py_strip_re_sub_dropWhile:
  "py_strip (re_sub_whitespace (dropWhile isspace s)) = py_strip (re_sub_whitespace s)"
  by (cases s) (simp_all add: py_strip_space_cons)

lemma re_sub_starts:
  "t = [] \<or> \<not> isspace (hd t) \<Longrightarrow>
     re_sub_whitespace t = [] \<or> \<not> isspace (hd (re_sub_whitespace t))"
  by (cases t) auto

lemma dropWhile_id: "xs \<noteq> [] \<Longrightarrow> \<not> P (hd xs) \<Longrightarrow> dropWhile P xs = xs"
  by (cases xs) simp_all

lemma py_strip_word:
  assumes "w \<noteq> []" and "\<forall>x\<in>set w. \<not> isspace x"
  shows "py_strip w = w"
proof -
  from assms have "\<not> isspace (hd w)" by simp
  with assms(1) have a: "dropWhile isspace w = w" by (rule dropWhile_id)
  from assms have "rev w \<noteq> []" "\<not> isspace (hd (rev w))" by (simp_all add: hd_rev)
  then have "dropWhile isspace (rev w) = rev w" by (rule dropWhile_id)
  with a show ?thesis by (simp only: py_strip_def rev_rev_ident)
qed

text \<open>A word, a space, then a text that does not start with whitespace.\<close>

lemma py_strip_word_space:
  assumes w: "w \<noteq> []" "\<forall>x\<in>set w. \<not> isspace x"
    and x: "x = [] \<or> \<not> isspace (hd x)"
  shows "py_strip (w @ 32 # x) = (if py_strip x = [] then w else w @ 32 # py_strip x)"
proof -
  from w have l: "dropWhile isspace (w @ 32 # x) = w @ 32 # x"
    by (intro dropWhile_id) (simp_all add: hd_append)
  have sx: "py_strip x = rev (dropWhile isspace (rev x))"
  proof (cases "x = []")
    case True
    then show ?thesis by (simp add: py_strip_def)
  next
    case False
    with x have "dropWhile isspace x = x" by (intro dropWhile_id) simp_all
    then show ?thesis by (simp only: py_strip_def)
  qed
  from w have rw: "dropWhile isspace (rev w) = rev w"
    by (intro dropWhile_id) (simp_all add: hd_rev)
  show ?thesis
  proof (cases "\<forall>c\<in>set x. isspace c")
    case True
    then have e: "dropWhile isspace (rev x) = []" by simp
    have "dropWhile isspace (rev (w @ 32 # x)) = rev w"
      using True rw by (simp add: dropWhile_append isspace_def)
    with l e sx show ?thesis by (simp add: py_strip_def)
  next
    case False
    then have ne: "dropWhile isspace (rev x) \<noteq> []" by simp
    from False obtain c where "c \<in> set (rev x)" "\<not> isspace c" by auto
    then have "dropWhile isspace (rev x @ 32 # rev w) = dropWhile isspace (rev x) @ 32 # rev w"
      by (rule dropWhile_append1)
    then have "dropWhile isspace (rev (w @ 32 # x)) = dropWhile isspace (rev x) @ 32 # rev w"
      by simp
    with l ne sx show ?thesis by (simp add: py_strip_def)
  qed
qed

lemma ws_words_nonempty: "\<forall>w\<in>set (ws_words s). w \<noteq> []"
  by (induction s rule: ws_words.induct) auto

lemma join_spaces_Cons:
  "join_spaces (w # ws) = (if ws = [] then w else w @ 32 # join_spaces ws)"
  by (cases ws) simp_all

lemma join_spaces_empty:
  "\<forall>w\<in>set ws. w \<noteq> [] \<Longrightarrow> join_spaces ws = [] \<longleftrightarrow> ws = []"
  by (cases ws) (auto simp: join_spaces_Cons)

lemma parse_text_resume_words:
  "parse_text_resume s = join_spaces (ws_words s)"
  unfolding parse_text_resume_def
proof (induction s rule: ws_words.induct)
  case 1
  show ?case by (simp add: py_strip_def)
next
  case (2 c cs)
  show ?case
  proof (cases "isspace c")
    case True
    have "py_strip (re_sub_whitespace (c # cs))
            = py_strip (re_sub_whitespace (dropWhile isspace cs))"
      using True by (simp add: py_strip_space_cons isspace_def)
    also have "\<dots> = py_strip (re_sub_whitespace cs)"
      by (rule py_strip_re_sub_dropWhile)
    also have "\<dots> = join_spaces (ws_words cs)"
      using 2(1) [OF True] .
    finally show ?thesis using True by simp
  next
    case False
    let ?w = "c # takeWhile (\<lambda>x. \<not> isspace x) cs"
    let ?rest = "dropWhile (\<lambda>x. \<not> isspace x) cs"
    have w: "?w \<noteq> []" "\<forall>x\<in>set ?w. \<not> isspace x"
      using False by (auto dest: set_takeWhileD)
    have n: "re_sub_whitespace (c # cs) = ?w @ re_sub_whitespace ?rest"
      using False by (rule re_sub_nonspace)
    have ih: "py_strip (re_sub_whitespace ?rest) = join_spaces (ws_words ?rest)"
      using 2(2) [OF False] .
    have words: "ws_words (c # cs) = ?w # ws_words ?rest"
      using False by simp
    show ?thesis
    proof (cases "?rest")
      case Nil
      have "re_sub_whitespace (c # cs) = ?w" unfolding n Nil by simp
      moreover have "ws_words (c # cs) = [?w]" unfolding words Nil by simp
      ultimately show ?thesis using py_strip_word [OF w] by (simp only: join_spaces.simps)
    next
      case (Cons d ds)
      have "\<not> \<not> isspace (hd ?rest)"
        by (rule hd_dropWhile) (simp add: Cons del: dropWhile_eq_Nil_conv)
      with Cons have d: "isspace d" by simp
      let ?x = "re_sub_whitespace (dropWhile isspace ds)"
      have r: "re_sub_whitespace ?rest = 32 # ?x"
        using Cons d by simp
      have "dropWhile isspace ds = [] \<or> \<not> isspace (hd (dropWhile isspace ds))"
        using hd_dropWhile [of isspace ds] by blast
      then have x: "?x = [] \<or> \<not> isspace (hd ?x)"
        by (rule re_sub_starts)
      have sx: "py_strip ?x = join_spaces (ws_words ?rest)"
        using ih r by (simp add: py_strip_space_cons isspace_def)
      have e: "join_spaces (ws_words ?rest) = [] \<longleftrightarrow> ws_words ?rest = []"
        by (rule join_spaces_empty) (rule ws_words_nonempty)
      have "py_strip (re_sub_whitespace (c # cs)) = py_strip (?w @ 32 # ?x)"
        using n r by simp
      also have "\<dots> = (if py_strip ?x = [] then ?w else ?w @ 32 # py_strip ?x)"
        using w x by (rule py_strip_word_space)
      also have "\<dots> = join_spaces (?w # ws_words ?rest)"
        using sx e by (simp add: join_spaces_Cons)
      finally show ?thesis using words by simp
    qed
  qed
qed

text \<open>
  Claim C6, as the code has it. The file is read as a PDF exactly when its name ends in
  \<^verbatim>\<open>.pdf\<close> in any mix of cases; the result is then the page texts joined by newlines
  and trimmed, whitespace inside it left as it is. Any other file is decoded as UTF-8 and
  passed through \<open>parse_text_resume\<close>, whose result is the words of the text (its
  maximal runs of characters that are not whitespace) joined by single spaces: every run
  of whitespace between two words has become one space, and the runs at the ends are gone.
  So the result is trimmed, has only single spaces as whitespace, and keeps every character
  that is not whitespace.
\<close>

theorem resume_parser_paths:
  "(endswith (py_lower (filename f)) (lit ''.pdf'') \<longleftrightarrow>
      (\<exists>stem p d x. filename f = stem @ [46, p, d, x] \<and> p \<in> {80, 112} \<and> d \<in> {68, 100}
         \<and> x \<in> {70, 102}))
   \<and> (endswith (py_lower (filename f)) (lit ''.pdf'')
        \<and> pdf_page_texts env (file_bytes f) = Inr pages \<longrightarrow>
      parse_resume env (Some f) rt = Inr (py_strip (join_lines pages))
      \<and> trimmed (py_strip (join_lines pages)))
   \<and> (\<not> endswith (py_lower (filename f)) (lit ''.pdf'')
        \<and> decode_utf8 env (file_bytes f) = Inr content \<longrightarrow>
      parse_resume env (Some f) rt = Inr (parse_text_resume content))
   \<and> parse_text_resume content = join_spaces (ws_words content)
   \<and> trimmed (parse_text_resume content)
   \<and> single_spaced (parse_text_resume content)
   \<and> filter (\<lambda>c. \<not> isspace c) (parse_text_resume content) = filter (\<lambda>c. \<not> isspace c) content"
proof (intro conjI impI)
  show "endswith (py_lower (filename f)) (lit ''.pdf'') \<longleftrightarrow>
      (\<exists>stem p d x. filename f = stem @ [46, p, d, x] \<and> p \<in> {80, 112} \<and> d \<in> {68, 100}
         \<and> x \<in> {70, 102})"
    by (rule pdf_suffix_iff)
next
  assume "endswith (py_lower (filename f)) (lit ''.pdf'')
        \<and> pdf_page_texts env (file_bytes f) = Inr pages"
  then show "parse_resume env (Some f) rt = Inr (py_strip (join_lines pages))"
    by (simp add: parse_resume_def parse_pdf_resume_def pdf_text)
next
  show "trimmed (py_strip (join_lines pages))" by (rule trimmed_strip)
next
  assume "\<not> endswith (py_lower (filename f)) (lit ''.pdf'')
        \<and> decode_utf8 env (file_bytes f) = Inr content"
  then show "parse_resume env (Some f) rt = Inr (parse_text_resume content)"
    by (simp add: parse_resume_def)
next
  show "parse_text_resume content = join_spaces (ws_words content)"
    by (rule parse_text_resume_words)
next
  show "trimmed (parse_text_resume content)"
    unfolding parse_text_resume_def by (rule trimmed_strip)
next
  show "single_spaced (parse_text_resume content)"
    unfolding parse_text_resume_def by (intro single_spaced_strip single_spaced_re_sub)
next
  show "filter (\<lambda>c. \<not> isspace c) (parse_text_resume content) = filter (\<lambda>c. \<not> isspace c) content"
    unfolding parse_text_resume_def by (simp only: filter_strip filter_re_sub)
qed

theorem resume_parser_paths_witness:
  "endswith (py_lower (lit ''resume.PDF'')) (lit ''.pdf'')
   \<and> parse_resume (offline_env\<lparr>pdf_page_texts := \<lambda>b. Inr [lit ''Jane  Doe'', lit ''Python'']\<rparr>)
        (Some \<lparr>filename = lit ''resume.PDF'', file_bytes = []\<rparr>) None
       = Inr (lit ''Jane  Doe'' @ [10] @ lit ''Python'')
   \<and> \<not> endswith (py_lower (lit ''resume.txt'')) (lit ''.pdf'')
   \<and> decode_utf8 offline_env (lit ''  Jane   Doe '') = Inr (lit ''  Jane   Doe '')
   \<and> parse_resume offline_env
        (Some \<lparr>filename = lit ''resume.txt'', file_bytes = lit ''  Jane   Doe ''\<rparr>) None
       = Inr (lit ''Jane Doe'')
   \<and> ws_words (lit ''  Jane   Doe '') = [lit ''Jane'', lit ''Doe'']
   \<and> parse_text_resume (lit ''  Jane   Doe '') = join_spaces [lit ''Jane'', lit ''Doe'']"
proof -
  have p: "endswith (py_lower (lit ''resume.PDF'')) (lit ''.pdf'')"
    and t: "\<not> endswith (py_lower (lit ''resume.txt'')) (lit ''.pdf'')"
    by (simp_all add: endswith_def py_lower_def lit_def)
  have d: "decode_utf8 offline_env (lit ''  Jane   Doe '') = Inr (lit ''  Jane   Doe '')"
    by (simp add: offline_env_def lit_def)
  have j: "py_strip (join_lines [lit ''Jane  Doe'', lit ''Python''])
             = lit ''Jane  Doe'' @ [10] @ lit ''Python''"
    by (simp add: py_strip_def isspace_def lit_def)
  have n: "parse_text_resume (lit ''  Jane   Doe '') = lit ''Jane Doe''"
    by (simp add: parse_text_resume_def py_strip_def isspace_def lit_def)
  have w: "ws_words (lit ''  Jane   Doe '') = [lit ''Jane'', lit ''Doe'']"
    by (simp add: isspace_def lit_def)
  from p t d j n w
    resume_parser_paths
      [of "\<lparr>filename = lit ''resume.PDF'', file_bytes = []\<rparr>"
          "offline_env\<lparr>pdf_page_texts := \<lambda>b. Inr [lit ''Jane  Doe'', lit ''Python'']\<rparr>"
          "[lit ''Jane  Doe'', lit ''Python'']" None "[]"]
    resume_parser_paths
      [of "\<lparr>filename = lit ''resume.txt'', file_bytes = lit ''  Jane   Doe ''\<rparr>"
          offline_env "[]" None "lit ''  Jane   Doe ''"]
  show ?thesis by simp
qed

text \<open>
  Claim C6, as stated, fails on the PDF path: two pages, the first with two spaces in it,
  come out with the two spaces and the newline between the pages still there.
\<close>

theorem pdf_text_is_not_collapsed:
  "parse_resume (offline_env\<lparr>pdf_page_texts := \<lambda>b. Inr [lit ''Jane  Doe'', lit ''Python'']\<rparr>)
      (Some \<lparr>filename = lit ''resume.PDF'', file_bytes = []\<rparr>) None
     = Inr (lit ''Jane  Doe'' @ [10] @ lit ''Python'')
   \<and> \<not> single_spaced (lit ''Jane  Doe'' @ [10] @ lit ''Python'')"
  by (simp add: parse_resume_def parse_pdf_resume_def endswith_def py_lower_def py_strip_def
      offline_env_def lit_def isspace_def)

end
